theory Spec2Isabelle
  imports Main "HOL-Library.Word" "HOL-Library.Sublist"
begin

section \<open>Strings of the source language\<close>

text \<open>
  A TypeScript string is a sequence of UTF-16 code units, so a string is a list of
  16-bit words. \<open>startsWith\<close> is \<open>prefix\<close> on code units and \<open>===\<close> is equality of the
  lists. ASCII literals of the source are written \<open>js ''...''\<close>.
\<close>

type_synonym jsstring = "16 word list"

definition js :: "string \<Rightarrow> jsstring" where
  "js s = map of_char s"

text \<open>
  \<open>String.prototype.trim\<close> removes the ECMAScript WhiteSpace and LineTerminator code
  points from both ends: TAB, LF, VT, FF, CR, SPACE, NBSP, the other space separators
  (U+1680, U+2000..U+200A, U+202F, U+205F, U+3000), the line and paragraph separators
  (U+2028, U+2029) and U+FEFF.
\<close>

definition isWhiteSpace :: "16 word \<Rightarrow> bool" where
  "isWhiteSpace c \<longleftrightarrow>
     c = 0x09 \<or> c = 0x0A \<or> c = 0x0B \<or> c = 0x0C \<or> c = 0x0D \<or> c = 0x20 \<or> c = 0xA0 \<or>
     c = 0x1680 \<or> (0x2000 \<le> c \<and> c \<le> 0x200A) \<or> c = 0x2028 \<or> c = 0x2029 \<or>
     c = 0x202F \<or> c = 0x205F \<or> c = 0x3000 \<or> c = 0xFEFF"

definition trim :: "jsstring \<Rightarrow> jsstring" where
  "trim s = rev (dropWhile isWhiteSpace (rev (dropWhile isWhiteSpace s)))"

section \<open>The input area: props, state, effects\<close>

text \<open>
  \<open>InputAreaProps\<close> without the callback: the two flags owned by the caller
  (\<open>disabled\<close> defaults to false at the call site). The callback \<open>onGenerate\<close> is an
  effect of the handlers.
\<close>

record props =
  isGenerating :: bool
  disabled :: bool

text \<open>A \<open>File\<close>, as far as the component reads it: its name and its declared media type.\<close>

record jsfile =
  fname :: jsstring
  ftype :: jsstring

text \<open>The two \<open>useState\<close> cells of \<open>InputArea\<close>.\<close>

record state =
  isDragging :: bool
  prompt :: jsstring

definition initState :: state where
  "initState = \<lparr>isDragging = False, prompt = []\<rparr>"

text \<open>
  What a handler does to the outside, in the order it does it: \<open>e.preventDefault()\<close>,
  a call \<open>onGenerate(prompt, file)\<close> (\<open>None\<close> when the file argument is omitted) and
  \<open>alert(msg)\<close>.
\<close>

datatype effect =
  PreventDefault
  | OnGenerate jsstring "jsfile option"
  | Alert jsstring

fun calls :: "effect list \<Rightarrow> (jsstring \<times> jsfile option) list" where
  "calls [] = []"
| "calls (OnGenerate t f # es) = (t, f) # calls es"
| "calls (e # es) = calls es"

fun alerts :: "effect list \<Rightarrow> jsstring list" where
  "alerts [] = []"
| "alerts (Alert m # es) = m # alerts es"
| "alerts (e # es) = alerts es"

section \<open>The handlers\<close>

text \<open>
  \<open>files[0]\<close> of a \<open>FileList\<close>: the first file, or \<open>undefined\<close> when the list is empty.
  The list itself may be \<open>null\<close>, hence \<open>jsfile list option\<close> in the handlers below; a
  \<open>File\<close> object is always truthy.
\<close>

definition firstFile :: "jsfile list \<Rightarrow> jsfile option" where
  "firstFile fs = (case fs of [] \<Rightarrow> None | f # _ \<Rightarrow> Some f)"

definition handleFile :: "props \<Rightarrow> state \<Rightarrow> jsfile \<Rightarrow> state \<times> effect list" where
  "handleFile p s f =
     (if prefix (js ''image/'') (ftype f) \<or> ftype f = js ''application/pdf''
      then (s, [OnGenerate (prompt s) (Some f)])
      else (s, [Alert (js ''Please upload an image or PDF.'')]))"

definition handleFileChange :: "props \<Rightarrow> state \<Rightarrow> jsfile list option \<Rightarrow> state \<times> effect list" where
  "handleFileChange p s files =
     (case files of
        None \<Rightarrow> (s, [])
      | Some fs \<Rightarrow>
          (case firstFile fs of
             None \<Rightarrow> (s, [])
           | Some f \<Rightarrow> handleFile p s f))"

definition handleDrop :: "props \<Rightarrow> state \<Rightarrow> jsfile list option \<Rightarrow> state \<times> effect list" where
  "handleDrop p s files =
     (let s1 = s\<lparr>isDragging := False\<rparr> in
      if disabled p \<or> isGenerating p then (s1, [PreventDefault])
      else
        (case files of
           None \<Rightarrow> (s1, [PreventDefault])
         | Some fs \<Rightarrow>
             (case firstFile fs of
                None \<Rightarrow> (s1, [PreventDefault])
              | Some f \<Rightarrow>
                  (if prefix (js ''image/'') (ftype f) \<or> ftype f = js ''application/pdf''
                   then (s1, [PreventDefault, OnGenerate (prompt s) (Some f)])
                   else (s1, [PreventDefault, Alert (js ''Please upload an image or PDF.'')])))))"

definition handleDragOver :: "props \<Rightarrow> state \<Rightarrow> state \<times> effect list" where
  "handleDragOver p s =
     (if \<not> disabled p \<and> \<not> isGenerating p
      then (s\<lparr>isDragging := True\<rparr>, [PreventDefault])
      else (s, [PreventDefault]))"

definition handleDragLeave :: "props \<Rightarrow> state \<Rightarrow> state \<times> effect list" where
  "handleDragLeave p s = (s\<lparr>isDragging := False\<rparr>, [PreventDefault])"

definition handleTextSubmit :: "props \<Rightarrow> state \<Rightarrow> state \<times> effect list" where
  "handleTextSubmit p s =
     (if trim (prompt s) \<noteq> [] \<and> \<not> isGenerating p \<and> \<not> disabled p
      then (s, [OnGenerate (prompt s) None])
      else (s, []))"

section \<open>The rendered controls and the events they deliver\<close>

text \<open>
  The \<open>disabled\<close> attributes the component renders: on the hidden file input
  (\<open>disabled={isGenerating || disabled}\<close>), on the text input (the same expression) and
  on the submit button (\<open>disabled={!prompt.trim() || isGenerating || disabled}\<close>).
\<close>

definition fileInputDisabled :: "props \<Rightarrow> bool" where
  "fileInputDisabled p \<longleftrightarrow> isGenerating p \<or> disabled p"

definition textInputDisabled :: "props \<Rightarrow> bool" where
  "textInputDisabled p \<longleftrightarrow> isGenerating p \<or> disabled p"

definition submitButtonDisabled :: "props \<Rightarrow> state \<Rightarrow> bool" where
  "submitButtonDisabled p s \<longleftrightarrow> trim (prompt s) = [] \<or> isGenerating p \<or> disabled p"

text \<open>The text input's \<open>onChange\<close> and \<open>onKeyDown\<close> arrow functions.\<close>

definition onTextChange :: "props \<Rightarrow> state \<Rightarrow> jsstring \<Rightarrow> state \<times> effect list" where
  "onTextChange p s v = (s\<lparr>prompt := v\<rparr>, [])"

definition onKeyDown :: "props \<Rightarrow> state \<Rightarrow> jsstring \<Rightarrow> state \<times> effect list" where
  "onKeyDown p s key = (if key = js ''Enter'' then handleTextSubmit p s else (s, []))"

text \<open>
  The user events of the widget. \<open>Drop\<close>, \<open>DragOver\<close> and \<open>DragLeave\<close> arrive at the label
  and always reach their handlers. \<open>FileChange\<close> is a selection in the file picker,
  \<open>TextChange\<close> and \<open>KeyDown\<close> come from the text input and \<open>Click\<close> from the submit
  button: a control rendered with \<open>disabled\<close> delivers no event, which is the only gate
  on the picker path, since \<open>handleFileChange\<close> and \<open>handleFile\<close> read neither flag.
\<close>

datatype event =
  Drop "jsfile list option"
  | DragOver
  | DragLeave
  | FileChange "jsfile list option"
  | TextChange jsstring
  | KeyDown jsstring
  | Click

fun fire :: "props \<Rightarrow> state \<Rightarrow> event \<Rightarrow> state \<times> effect list" where
  "fire p s (Drop files) = handleDrop p s files"
| "fire p s DragOver = handleDragOver p s"
| "fire p s DragLeave = handleDragLeave p s"
| "fire p s (FileChange files) =
     (if fileInputDisabled p then (s, []) else handleFileChange p s files)"
| "fire p s (TextChange v) =
     (if textInputDisabled p then (s, []) else onTextChange p s v)"
| "fire p s (KeyDown key) =
     (if textInputDisabled p then (s, []) else onKeyDown p s key)"
| "fire p s Click =
     (if submitButtonDisabled p s then (s, []) else handleTextSubmit p s)"

text \<open>
  A session is a list of events, each with the props of the render it arrives in (the
  caller may change the flags between events). \<open>run\<close> threads the state through the
  handlers and collects their effects in order.
\<close>

fun run :: "state \<Rightarrow> (props \<times> event) list \<Rightarrow> state \<times> effect list" where
  "run s [] = (s, [])"
| "run s ((p, ev) # rest) =
     (let (s1, out1) = fire p s ev; (s2, out2) = run s1 rest in (s2, out1 @ out2))"

text \<open>The drag events that end a drag interaction, and the one that starts it.\<close>

fun terminalDrag :: "props \<times> event \<Rightarrow> bool" where
  "terminalDrag (p, Drop files) = True"
| "terminalDrag (p, DragLeave) = True"
| "terminalDrag (p, ev) = False"

fun openingDrag :: "props \<times> event \<Rightarrow> bool" where
  "openingDrag (p, DragOver) = (\<not> disabled p \<and> \<not> isGenerating p)"
| "openingDrag (p, ev) = False"

section \<open>The cycling placeholder and its timers\<close>

text \<open>
  \<open>CyclingText\<close> holds two state cells, \<open>index\<close> and \<open>fade\<close>, and the timers its effect
  creates. Time is counted in milliseconds since mount (\<open>clock\<close>). \<open>interval\<close> is the due
  time of the \<open>setInterval\<close> timer (\<open>None\<close> once cleared) and \<open>timeouts\<close> holds the due
  times of the pending \<open>setTimeout\<close> timers, oldest first.
\<close>

definition words :: "jsstring list" where
  "words =
     [js ''a napkin sketch'', js ''a chaotic whiteboard'', js ''a game level design'',
      js ''a sci-fi interface'', js ''a diagram of a machine'', js ''an ancient scroll'']"

record cycling =
  index :: nat
  fade :: bool
  clock :: nat
  interval :: "nat option"
  timeouts :: "nat list"

text \<open>Mount: \<open>useState(0)\<close>, \<open>useState(true)\<close>, and the effect arms the 3000 ms interval.\<close>

definition mountCycling :: cycling where
  "mountCycling = \<lparr>index = 0, fade = True, clock = 0, interval = Some 3000, timeouts = []\<rparr>"

text \<open>The interval's callback: \<open>setFade(false)\<close> and a new 500 ms timeout.\<close>

definition intervalCallback :: "cycling \<Rightarrow> cycling" where
  "intervalCallback c = c\<lparr>fade := False, timeouts := timeouts c @ [clock c + 500]\<rparr>"

text \<open>The timeout's callback: \<open>setIndex(prev => (prev + 1) % words.length)\<close>, \<open>setFade(true)\<close>.\<close>

definition timeoutCallback :: "cycling \<Rightarrow> cycling" where
  "timeoutCallback c = c\<lparr>index := (index c + 1) mod length words, fade := True\<rparr>"

text \<open>
  One millisecond passes: the timeouts that are due run and are removed, then the
  interval runs if it is due and is re-armed 3000 ms later. (The two kinds are never due
  in the same millisecond here, so their relative order is immaterial.)
\<close>

definition tick :: "cycling \<Rightarrow> cycling" where
  "tick c =
     (let c1 = c\<lparr>clock := clock c + 1\<rparr>;
          due = filter (\<lambda>d. d \<le> clock c1) (timeouts c1);
          c2 = fold (\<lambda>d. timeoutCallback) due
                 (c1\<lparr>timeouts := filter (\<lambda>d. clock c1 < d) (timeouts c1)\<rparr>)
      in case interval c2 of
           None \<Rightarrow> c2
         | Some d \<Rightarrow>
             if d \<le> clock c2 then intervalCallback (c2\<lparr>interval := Some (d + 3000)\<rparr>)
             else c2)"

definition advance :: "nat \<Rightarrow> cycling \<Rightarrow> cycling" where
  "advance n c = (tick ^^ n) c"

text \<open>Unmount runs the effect's cleanup, \<open>clearInterval(interval)\<close>, and nothing else.\<close>

definition unmount :: "cycling \<Rightarrow> cycling" where
  "unmount c = c\<lparr>interval := None\<rparr>"

text \<open>What the component renders: \<open>words[index]\<close>, fully visible exactly when \<open>fade\<close>.\<close>

definition phrase :: "cycling \<Rightarrow> jsstring option" where
  "phrase c = (if index c < length words then Some (words ! index c) else None)"

section \<open>Reference descriptions\<close>

text \<open>
  The accept predicate and the submission logic in the words of the specification
  (4.1): the declared media type must begin with \<open>image/\<close> or equal \<open>application/pdf\<close>;
  on success the file is submitted with the current prompt, on failure a notice is
  shown. The two handlers are compared with it below.
\<close>

definition acceptsType :: "jsstring \<Rightarrow> bool" where
  "acceptsType t \<longleftrightarrow> prefix (js ''image/'') t \<or> t = js ''application/pdf''"

definition submitOrReject :: "state \<Rightarrow> jsfile \<Rightarrow> effect list" where
  "submitOrReject s f =
     (if acceptsType (ftype f) then [OnGenerate (prompt s) (Some f)]
      else [Alert (js ''Please upload an image or PDF.'')])"

text \<open>
  The state of the placeholder \<open>r\<close> ms into the \<open>k\<close>-th period of the interval
  (\<open>r < 3000\<close>), in closed form; \<open>advance\<close> from mount is shown to reach it.
\<close>

definition timeline :: "nat \<Rightarrow> nat \<Rightarrow> cycling" where
  "timeline k r =
     \<lparr>index = (if r < 500 then k - 1 else k) mod 6,
      fade = (k = 0 \<or> 500 \<le> r),
      clock = 3000 * k + r,
      interval = Some (3000 * k + 3000),
      timeouts = (if 1 \<le> k \<and> r < 500 then [3000 * k + 500] else [])\<rparr>"

section \<open>Example inputs\<close>

definition pngFile :: jsfile where
  "pngFile = \<lparr>fname = js ''sketch.png'', ftype = js ''image/png''\<rparr>"

definition pdfFile :: jsfile where
  "pdfFile = \<lparr>fname = js ''plan.pdf'', ftype = js ''application/pdf''\<rparr>"

definition txtFile :: jsfile where
  "txtFile = \<lparr>fname = js ''notes.txt'', ftype = js ''text/plain''\<rparr>"

definition idle :: props where
  "idle = \<lparr>isGenerating = False, disabled = False\<rparr>"

definition busy :: props where
  "busy = \<lparr>isGenerating = True, disabled = False\<rparr>"

definition typed :: state where
  "typed = \<lparr>isDragging = True, prompt = js ''make it dark mode''\<rparr>"

definition padded :: state where
  "padded = \<lparr>isDragging = False, prompt = js ''  hi  ''\<rparr>"

text \<open>A drag session: over, leave, over while generating (ignored), over, then typing.\<close>

definition hover :: "(props \<times> event) list" where
  "hover = [(idle, DragOver), (idle, DragLeave), (busy, DragOver), (idle, DragOver),
            (idle, TextChange (js ''x''))]"

section \<open>Auxiliary lemmas\<close>

lemma calls_append: "calls (xs @ ys) = calls xs @ calls ys"
  by (induction xs rule: calls.induct) simp_all

lemma alerts_append: "alerts (xs @ ys) = alerts xs @ alerts ys"
  by (induction xs rule: alerts.induct) simp_all

lemma run_Cons:
  "run s ((p, ev) # rest) =
     (fst (run (fst (fire p s ev)) rest),
      snd (fire p s ev) @ snd (run (fst (fire p s ev)) rest))"
  by (simp add: split_beta)

lemma fire_generating_silent: "isGenerating p \<Longrightarrow> calls (snd (fire p s ev)) = []"
  by (cases ev)
    (simp_all add: handleDrop_def handleDragOver_def handleDragLeave_def fileInputDisabled_def
      textInputDisabled_def submitButtonDisabled_def)

lemma run_generating_silent:
  "\<forall>pe\<in>set evs. isGenerating (fst pe) \<Longrightarrow> calls (snd (run s evs)) = []"
proof (induction evs arbitrary: s)
  case Nil
  show ?case by simp
next
  case (Cons pe evs)
  obtain p ev where pe: "pe = (p, ev)" by (cases pe)
  from Cons.prems pe have "isGenerating p" by simp
  then have "calls (snd (fire p s ev)) = []" by (rule fire_generating_silent)
  moreover have "calls (snd (run (fst (fire p s ev)) evs)) = []"
    using Cons.IH Cons.prems by simp
  ultimately show ?case
    unfolding pe run_Cons by (simp add: calls_append)
qed

text \<open>
  The picker handlers read neither flag: called while \<open>isGenerating\<close> is set,
  \<open>handleFileChange\<close> would still submit. Only the \<open>disabled\<close> attribute of the file
  input keeps the event from arriving.
\<close>

lemma handleFileChange_reads_no_flag:
  "handleFileChange p s files = handleFileChange q s files"
  by (simp add: handleFileChange_def handleFile_def split: option.splits)

lemma fire_passes_prompt: "c \<in> set (calls (snd (fire p s ev))) \<Longrightarrow> fst c = prompt s"
  by (cases ev)
    (auto simp: handleDrop_def handleDragOver_def handleDragLeave_def handleFileChange_def
      handleFile_def handleTextSubmit_def onTextChange_def onKeyDown_def Let_def
      split: if_splits option.splits)

lemma run_snoc:
  "run s (evs @ [(p, ev)]) =
     (fst (fire p (fst (run s evs)) ev),
      snd (run s evs) @ snd (fire p (fst (run s evs)) ev))"
proof (induction evs arbitrary: s)
  case Nil
  show ?case by simp
next
  case (Cons pe evs)
  obtain q e where pe: "pe = (q, e)" by (cases pe)
  show ?case
    unfolding pe append_Cons run_Cons Cons.IH by simp
qed

lemma terminal_not_opening: "terminalDrag pe \<Longrightarrow> \<not> openingDrag pe"
  by (cases pe rule: terminalDrag.cases) simp_all

lemma fire_isDragging:
  "isDragging (fst (fire p s ev)) =
     (if terminalDrag (p, ev) then False
      else if openingDrag (p, ev) then True
      else isDragging s)"
  by (cases ev)
    (simp_all add: handleDrop_def handleDragOver_def handleDragLeave_def handleFileChange_def
      handleFile_def handleTextSubmit_def onTextChange_def onKeyDown_def Let_def
      split: option.splits)

lemma run_isDragging:
  "isDragging (fst (run s evs)) \<longleftrightarrow>
     (\<exists>e\<in>set (takeWhile (\<lambda>e. \<not> terminalDrag e) (rev evs)). openingDrag e)
   \<or> (isDragging s \<and> (\<forall>e\<in>set evs. \<not> terminalDrag e))"
proof (induction evs rule: rev_induct)
  case Nil
  show ?case by simp
next
  case (snoc pe evs)
  obtain p ev where pe: "pe = (p, ev)" by (cases pe)
  show ?case
  proof (cases "terminalDrag (p, ev)")
    case True
    then show ?thesis
      unfolding pe run_snoc by (simp add: fire_isDragging)
  next
    case False
    show ?thesis
    proof (cases "openingDrag (p, ev)")
      case True
      with False show ?thesis
        unfolding pe run_snoc by (simp add: fire_isDragging)
    next
      case no: False
      from False no have "isDragging (fst (run s (evs @ [(p, ev)]))) = isDragging (fst (run s evs))"
        unfolding run_snoc by (simp add: fire_isDragging)
      with snoc.IH False no show ?thesis
        unfolding pe by auto
    qed
  qed
qed

lemma handleDrop_isDragging: "\<not> isDragging (fst (handleDrop p s files))"
  by (simp add: handleDrop_def Let_def split: option.splits)

lemma run_terminal_last:
  "terminalDrag (p, ev) \<Longrightarrow> \<not> isDragging (fst (run s (evs @ [(p, ev)])))"
  unfolding run_snoc by (simp add: fire_isDragging)

lemma handleFileChange_first:
  "snd (handleFileChange p s (Some (f # rest))) = submitOrReject s f"
  by (simp add: handleFileChange_def handleFile_def firstFile_def submitOrReject_def
      acceptsType_def)

lemma handleDrop_first:
  "\<not> isGenerating p \<Longrightarrow> \<not> disabled p \<Longrightarrow>
     snd (handleDrop p s (Some (f # rest))) = PreventDefault # submitOrReject s f"
  by (simp add: handleDrop_def firstFile_def submitOrReject_def acceptsType_def Let_def)

lemma handlers_agree:
  "\<not> isGenerating p \<Longrightarrow> \<not> disabled p \<Longrightarrow>
     snd (handleDrop p s files) = PreventDefault # snd (handleFileChange p s files)"
  by (simp add: handleDrop_def handleFileChange_def handleFile_def Let_def
      split: option.splits)

lemma controls_agree:
  "calls (snd (fire p s (FileChange files))) = calls (snd (fire p s (Drop files)))
 \<and> alerts (snd (fire p s (FileChange files))) = alerts (snd (fire p s (Drop files)))"
proof (cases "isGenerating p \<or> disabled p")
  case True
  then show ?thesis
    by (auto simp: fileInputDisabled_def handleDrop_def Let_def)
next
  case False
  then have "snd (handleDrop p s files) = PreventDefault # snd (handleFileChange p s files)"
    by (simp add: handlers_agree)
  with False show ?thesis
    by (simp add: fileInputDisabled_def)
qed

lemma length_words: "length words = 6"
  by (simp add: words_def)

lemma tick_timeline_within:
  assumes "Suc r < 3000" and "Suc r \<noteq> 500"
  shows "tick (timeline k r) = timeline k (Suc r)"
  using assms by (auto simp: tick_def timeline_def Let_def)

lemma tick_timeline_fade_end: "tick (timeline k 499) = timeline k 500"
proof (cases k)
  case 0
  then show ?thesis
    by (simp add: tick_def timeline_def Let_def)
next
  case (Suc j)
  have "Suc (j mod 6) mod 6 = Suc j mod 6"
    by (rule mod_Suc_eq)
  with Suc show ?thesis
    by (simp add: tick_def timeline_def Let_def timeoutCallback_def length_words)
qed

lemma tick_timeline_wrap: "tick (timeline k 2999) = timeline (Suc k) 0"
  by (simp add: tick_def timeline_def Let_def intervalCallback_def)

lemma tick_timeline:
  "r < 3000 \<Longrightarrow>
     tick (timeline k r) = (if Suc r = 3000 then timeline (Suc k) 0 else timeline k (Suc r))"
  using tick_timeline_within [of r k] tick_timeline_fade_end [of k] tick_timeline_wrap [of k]
  by (cases "Suc r = 500") auto

lemma advance_Suc: "advance (Suc n) c = tick (advance n c)"
  by (simp add: advance_def)

lemma advance_add: "advance (m + n) c = advance m (advance n c)"
  by (simp add: advance_def funpow_add)

lemma advance_mount: "advance t mountCycling = timeline (t div 3000) (t mod 3000)"
proof (induction t)
  case 0
  show ?case by (simp add: advance_def mountCycling_def timeline_def)
next
  case (Suc t)
  have "advance (Suc t) mountCycling = tick (timeline (t div 3000) (t mod 3000))"
    by (simp add: advance_Suc Suc.IH)
  also have "\<dots> = (if Suc (t mod 3000) = 3000 then timeline (Suc (t div 3000)) 0
      else timeline (t div 3000) (Suc (t mod 3000)))"
    by (rule tick_timeline) simp
  also have "\<dots> = timeline (Suc t div 3000) (Suc t mod 3000)"
    by (simp add: div_Suc mod_Suc)
  finally show ?case .
qed


lemma timeoutCallback_timers:
  "interval (timeoutCallback c) = interval c"
  "clock (timeoutCallback c) = clock c"
  "timeouts (timeoutCallback c) = timeouts c"
  by (simp_all add: timeoutCallback_def)

lemma tick_unmounted_wait:
  assumes "interval c = None" and "timeouts c = [d]" and "Suc (clock c) < d"
  shows "tick c = c\<lparr>clock := Suc (clock c)\<rparr>"
  using assms by (cases c) (simp add: tick_def Let_def)

lemma tick_unmounted_fire:
  assumes "interval c = None" and "timeouts c = [d]" and "Suc (clock c) = d"
  shows "tick c = timeoutCallback (c\<lparr>clock := d, timeouts := []\<rparr>)"
  using assms by (cases c) (simp add: tick_def Let_def timeoutCallback_timers)

lemma advance_unmounted_wait:
  assumes "interval c = None" and "timeouts c = [d]" and "clock c + n < d"
  shows "advance n c = c\<lparr>clock := clock c + n\<rparr>"
  using assms
proof (induction n)
  case 0
  show ?case by (simp add: advance_def)
next
  case (Suc n)
  then have "advance n c = c\<lparr>clock := clock c + n\<rparr>"
    by simp
  with Suc.prems show ?case
    by (simp add: advance_Suc tick_unmounted_wait [where d = d])
qed

lemma advance_unmounted_fire:
  assumes "interval c = None" and "timeouts c = [d]" and "clock c < d"
  shows "advance (d - clock c) c = timeoutCallback (c\<lparr>clock := d, timeouts := []\<rparr>)"
proof -
  from assms(3) obtain n where n: "d - clock c = Suc n" and lt: "clock c + n < d"
    and eq: "Suc (clock c + n) = d"
    by (cases "d - clock c") auto
  have "advance n c = c\<lparr>clock := clock c + n\<rparr>"
    using assms(1,2) lt by (rule advance_unmounted_wait)
  then have "advance (Suc n) c = tick (c\<lparr>clock := clock c + n\<rparr>)"
    by (simp add: advance_Suc)
  also have "\<dots> = timeoutCallback (c\<lparr>clock := clock c + n\<rparr>\<lparr>clock := d, timeouts := []\<rparr>)"
    using assms(1,2) eq by (intro tick_unmounted_fire) simp_all
  finally show ?thesis
    using n by simp
qed

lemma words_0: "words ! 0 = js ''a napkin sketch''"
  by (simp add: words_def)

lemma words_1: "words ! Suc 0 = js ''a chaotic whiteboard''"
  by (simp add: words_def)

lemma at_period:
  "r < 3000 \<Longrightarrow> advance (3000 * k + r) mountCycling = timeline k r"
  by (simp add: advance_mount)

lemma first_period: "t < 3000 \<Longrightarrow> advance t mountCycling = timeline 0 t"
  using at_period [of t 0] by simp

lemma second_period:
  "3000 \<le> t \<Longrightarrow> t < 6000 \<Longrightarrow> advance t mountCycling = timeline 1 (t - 3000)"
  using at_period [of "t - 3000" 1] by simp

lemma phrase_timeline:
  "phrase (timeline k r) = Some (words ! ((if r < 500 then k - 1 else k) mod 6))"
  by (simp add: phrase_def timeline_def length_words)

section \<open>Claims\<close>

subsection \<open>C1\<close>

text \<open>
  C1. For a file whose declared media type starts with \<open>image/\<close> or equals
  \<open>application/pdf\<close>, and with neither \<open>disabled\<close> nor \<open>isGenerating\<close> set, a drop whose
  first file it is, and a picker selection whose first file it is (the handler itself,
  and the change event through the enabled control), each call \<open>onGenerate\<close> exactly once,
  with the current prompt and that file.
\<close>

theorem C1_accepted_file_submits_once:
  assumes "prefix (js ''image/'') (ftype f) \<or> ftype f = js ''application/pdf''"
    and "\<not> disabled p" and "\<not> isGenerating p"
  shows "calls (snd (handleDrop p s (Some (f # rest)))) = [(prompt s, Some f)]
       \<and> calls (snd (handleFileChange p s (Some (f # rest)))) = [(prompt s, Some f)]
       \<and> calls (snd (fire p s (FileChange (Some (f # rest))))) = [(prompt s, Some f)]"
  using assms
  by (simp add: handleDrop_def handleFileChange_def handleFile_def firstFile_def
      fileInputDisabled_def)

theorem C1_witness:
  "calls (snd (handleDrop idle typed (Some [pngFile]))) = [(js ''make it dark mode'', Some pngFile)]
 \<and> calls (snd (handleFileChange idle typed (Some [pngFile]))) =
      [(js ''make it dark mode'', Some pngFile)]
 \<and> calls (snd (fire idle typed (FileChange (Some [pngFile])))) =
      [(js ''make it dark mode'', Some pngFile)]
 \<and> calls (snd (handleDrop idle typed (Some [pdfFile, txtFile]))) =
      [(js ''make it dark mode'', Some pdfFile)]"
  using C1_accepted_file_submits_once [of pngFile idle typed "[]"]
    C1_accepted_file_submits_once [of pdfFile idle typed "[txtFile]"]
  by (simp add: pngFile_def pdfFile_def idle_def typed_def js_def del: fire.simps)

subsection \<open>C2\<close>

text \<open>
  C2. A text submission, whether \<open>handleTextSubmit\<close> itself, the Enter key in the text
  input or a click on the submit button, calls \<open>onGenerate\<close> exactly once with the prompt
  and no file if the trimmed prompt is non-empty and neither \<open>isGenerating\<close> nor
  \<open>disabled\<close> is set, and makes no call otherwise.
\<close>

theorem C2_text_submit:
  "calls (snd (handleTextSubmit p s)) =
     (if trim (prompt s) \<noteq> [] \<and> \<not> isGenerating p \<and> \<not> disabled p
      then [(prompt s, None)] else [])
 \<and> calls (snd (fire p s (KeyDown (js ''Enter'')))) = calls (snd (handleTextSubmit p s))
 \<and> calls (snd (fire p s Click)) = calls (snd (handleTextSubmit p s))"
  by (simp add: handleTextSubmit_def onKeyDown_def textInputDisabled_def
      submitButtonDisabled_def)

theorem C2_witness:
  "calls (snd (handleTextSubmit idle typed)) = [(js ''make it dark mode'', None)]
 \<and> calls (snd (fire idle typed (KeyDown (js ''Enter'')))) = [(js ''make it dark mode'', None)]
 \<and> calls (snd (fire idle typed Click)) = [(js ''make it dark mode'', None)]
 \<and> calls (snd (handleTextSubmit busy typed)) = []
 \<and> calls (snd (handleTextSubmit idle (typed\<lparr>prompt := js ''   ''\<rparr>))) = []"
  using C2_text_submit [of idle typed] C2_text_submit [of busy typed]
    C2_text_submit [of idle "typed\<lparr>prompt := js ''   ''\<rparr>"]
  by (simp add: idle_def busy_def typed_def js_def trim_def isWhiteSpace_def)

subsection \<open>C3\<close>

text \<open>
  C3, as stated, fails: a drop while \<open>isGenerating\<close> is set returns before the file is
  validated, so a file of type \<open>text/plain\<close> dropped then produces no rejection notice.
\<close>

theorem C3_counterexample:
  "\<not> prefix (js ''image/'') (ftype txtFile) \<and> ftype txtFile \<noteq> js ''application/pdf''
 \<and> alerts (snd (handleDrop busy typed (Some [txtFile]))) = []"
  by (simp add: txtFile_def busy_def handleDrop_def js_def)

text \<open>
  C3, amended. For a file whose declared media type neither starts with \<open>image/\<close> nor
  equals \<open>application/pdf\<close>, dropping or picking it makes no call of \<open>onGenerate\<close> and
  leaves the prompt as it was; \<open>handleFileChange\<close> always alerts, and \<open>handleDrop\<close> alerts
  exactly when neither \<open>disabled\<close> nor \<open>isGenerating\<close> is set.
\<close>

theorem C3_rejected_file:
  assumes "\<not> prefix (js ''image/'') (ftype f)" and "ftype f \<noteq> js ''application/pdf''"
  shows "calls (snd (handleDrop p s (Some (f # rest)))) = []
       \<and> calls (snd (handleFileChange p s (Some (f # rest)))) = []
       \<and> prompt (fst (handleDrop p s (Some (f # rest)))) = prompt s
       \<and> prompt (fst (handleFileChange p s (Some (f # rest)))) = prompt s
       \<and> alerts (snd (handleFileChange p s (Some (f # rest)))) =
           [js ''Please upload an image or PDF.'']
       \<and> alerts (snd (handleDrop p s (Some (f # rest)))) =
           (if disabled p \<or> isGenerating p then [] else [js ''Please upload an image or PDF.''])"
  using assms by (simp add: handleDrop_def handleFileChange_def handleFile_def firstFile_def)

theorem C3_witness:
  "calls (snd (handleDrop idle typed (Some [txtFile]))) = []
 \<and> calls (snd (handleFileChange idle typed (Some [txtFile]))) = []
 \<and> prompt (fst (handleDrop idle typed (Some [txtFile]))) = js ''make it dark mode''
 \<and> prompt (fst (handleFileChange idle typed (Some [txtFile]))) = js ''make it dark mode''
 \<and> alerts (snd (handleFileChange idle typed (Some [txtFile]))) =
      [js ''Please upload an image or PDF.'']
 \<and> alerts (snd (handleDrop idle typed (Some [txtFile]))) =
      [js ''Please upload an image or PDF.'']"
  using C3_rejected_file [of txtFile idle typed "[]"]
  by (simp add: txtFile_def idle_def typed_def js_def)

subsection \<open>C4\<close>

text \<open>
  C4. While \<open>isGenerating\<close> is set no event calls \<open>onGenerate\<close>: not a drop, not a text
  submission (both handlers test the flag), and not a picker selection (the file input
  is rendered disabled, so no change event reaches \<open>handleFileChange\<close>); hence no
  sequence of events during which the flag stays set makes a call.
\<close>

theorem C4_generating_blocks_submission:
  "(isGenerating p \<longrightarrow>
      calls (snd (handleDrop p s files)) = []
    \<and> calls (snd (handleTextSubmit p s)) = []
    \<and> fileInputDisabled p
    \<and> calls (snd (fire p s ev)) = [])
 \<and> ((\<forall>pe\<in>set evs. isGenerating (fst pe)) \<longrightarrow> calls (snd (run s evs)) = [])"
  using fire_generating_silent [of p s ev] run_generating_silent [of evs s]
  by (simp add: handleDrop_def handleTextSubmit_def fileInputDisabled_def)

theorem C4_witness:
  "isGenerating busy
 \<and> calls (snd (handleDrop busy typed (Some [pngFile]))) = []
 \<and> calls (snd (handleTextSubmit busy typed)) = []
 \<and> fileInputDisabled busy
 \<and> calls (snd (fire busy typed (FileChange (Some [pngFile])))) = []
 \<and> calls (snd (run typed [(busy, Drop (Some [pngFile])), (busy, FileChange (Some [pngFile])),
      (busy, KeyDown (js ''Enter'')), (busy, Click)])) = []"
proof -
  have g: "isGenerating busy"
    by (simp add: busy_def)
  then have every: "\<forall>pe\<in>set [(busy, Drop (Some [pngFile])), (busy, FileChange (Some [pngFile])),
      (busy, KeyDown (js ''Enter'')), (busy, Click)]. isGenerating (fst pe)"
    by simp
  from g every show ?thesis
    using C4_generating_blocks_submission [of busy typed "Some [pngFile]"
      "FileChange (Some [pngFile])"
      "[(busy, Drop (Some [pngFile])), (busy, FileChange (Some [pngFile])),
        (busy, KeyDown (js ''Enter'')), (busy, Click)]"]
    by blast
qed

subsection \<open>C5\<close>

text \<open>
  C5. In a session started from the initial state, \<open>isDragging\<close> is true after a
  sequence of events exactly when, among the events since the last drag-leave or drop,
  there is a drag-over that arrived with \<open>disabled\<close> and \<open>isGenerating\<close> both false. Both
  terminal handlers reset it on every branch, so it is false after any sequence that
  ends in a drag-leave or a drop, whatever the flags and the state before; a drag-over
  sets it only when both flags are false; and it is false at rest.
\<close>

theorem C5_drag_state:
  "(isDragging (fst (run initState evs)) \<longleftrightarrow>
      (\<exists>e\<in>set (takeWhile (\<lambda>e. \<not> terminalDrag e) (rev evs)). openingDrag e))
 \<and> (terminalDrag (p, ev) \<longrightarrow> \<not> isDragging (fst (run s (evs @ [(p, ev)]))))
 \<and> \<not> isDragging (fst (handleDragLeave p s))
 \<and> \<not> isDragging (fst (handleDrop p s files))
 \<and> (isDragging (fst (handleDragOver p s)) \<longleftrightarrow>
      (\<not> disabled p \<and> \<not> isGenerating p) \<or> isDragging s)
 \<and> \<not> isDragging initState"
proof -
  have rest: "\<not> isDragging initState"
    by (simp add: initState_def)
  with run_isDragging [of initState evs]
  have a: "isDragging (fst (run initState evs)) \<longleftrightarrow>
      (\<exists>e\<in>set (takeWhile (\<lambda>e. \<not> terminalDrag e) (rev evs)). openingDrag e)"
    by simp
  have b: "terminalDrag (p, ev) \<longrightarrow> \<not> isDragging (fst (run s (evs @ [(p, ev)])))"
    using run_terminal_last by blast
  have c: "\<not> isDragging (fst (handleDragLeave p s))"
    by (simp add: handleDragLeave_def)
  have d: "\<not> isDragging (fst (handleDrop p s files))"
    by (rule handleDrop_isDragging)
  have e: "isDragging (fst (handleDragOver p s)) \<longleftrightarrow>
      (\<not> disabled p \<and> \<not> isGenerating p) \<or> isDragging s"
    by (simp add: handleDragOver_def)
  from a b c d e rest show ?thesis
    by blast
qed

theorem C5_witness:
  "isDragging (fst (run initState hover))
 \<and> terminalDrag (busy, Drop None) \<and> \<not> isDragging (fst (run initState (hover @ [(busy, Drop None)])))
 \<and> \<not> isDragging (fst (run initState (hover @ [(busy, Drop None), (busy, DragOver)])))"
  using C5_drag_state [of hover busy "Drop None" initState]
    C5_drag_state [of "hover @ [(busy, Drop None), (busy, DragOver)]"]
  by (simp add: hover_def idle_def busy_def del: run.simps)

subsection \<open>C6\<close>

text \<open>
  C6. The picker path and the drop path apply the same accept predicate and the same
  submission logic: with neither flag set, \<open>handleDrop\<close> does what \<open>handleFileChange\<close>
  does (after \<open>preventDefault\<close>), namely one call \<open>onGenerate(prompt, file)\<close> for an
  accepted first file and the same alert otherwise; through the rendered controls the
  calls and alerts of the two paths coincide for all flags, the file input being
  disabled exactly when \<open>isGenerating\<close> or \<open>disabled\<close> is set.
\<close>

theorem C6_picker_matches_drop:
  "(\<not> isGenerating p \<and> \<not> disabled p \<longrightarrow>
      snd (handleDrop p s files) = PreventDefault # snd (handleFileChange p s files)
    \<and> snd (handleDrop p s (Some (f # rest))) = PreventDefault # submitOrReject s f)
 \<and> snd (handleFileChange p s (Some (f # rest))) = submitOrReject s f
 \<and> calls (snd (fire p s (FileChange files))) = calls (snd (fire p s (Drop files)))
 \<and> alerts (snd (fire p s (FileChange files))) = alerts (snd (fire p s (Drop files)))
 \<and> (fileInputDisabled p \<longleftrightarrow> isGenerating p \<or> disabled p)"
  using handlers_agree [of p s files] handleDrop_first [of p s f rest]
    handleFileChange_first [of p s f rest] controls_agree [of p s files]
  by (simp add: fileInputDisabled_def del: fire.simps)

theorem C6_witness:
  "snd (handleDrop idle typed (Some [pngFile])) =
     [PreventDefault, OnGenerate (js ''make it dark mode'') (Some pngFile)]
 \<and> snd (handleFileChange idle typed (Some [pngFile])) =
     [OnGenerate (js ''make it dark mode'') (Some pngFile)]
 \<and> snd (handleDrop idle typed (Some [txtFile])) =
     [PreventDefault, Alert (js ''Please upload an image or PDF.'')]
 \<and> snd (handleFileChange idle typed (Some [txtFile])) =
     [Alert (js ''Please upload an image or PDF.'')]
 \<and> fileInputDisabled busy"
  using C6_picker_matches_drop [of idle typed "Some [pngFile]" pngFile "[]"]
    C6_picker_matches_drop [of idle typed "Some [txtFile]" txtFile "[]"]
    C6_picker_matches_drop [of busy]
  by (simp add: idle_def busy_def typed_def pngFile_def txtFile_def submitOrReject_def
      acceptsType_def js_def del: fire.simps)

subsection \<open>C7\<close>

text \<open>
  C7, as stated, fails. The claim gives every phrase a dwell of 3.0 time units of full
  visibility before its fade-out. The code's dwell timer is one \<open>setInterval\<close> of
  3000 ms started at mount, so the fade-out of a phrase does not wait for 3000 ms of
  visibility: "a chaotic whiteboard" becomes visible at \<open>t = 3500\<close> and is still visible at
  \<open>t = 5999\<close>, but at \<open>t = 6000\<close>, 2500 ms after it appeared and 500 ms before a dwell
  of 3000 ms would expire, it is already fading.
\<close>

theorem C7_counterexample:
  "fade (advance 3500 mountCycling)
 \<and> phrase (advance 3500 mountCycling) = Some (js ''a chaotic whiteboard'')
 \<and> fade (advance 5999 mountCycling)
 \<and> phrase (advance 5999 mountCycling) = Some (js ''a chaotic whiteboard'')
 \<and> \<not> fade (advance 6000 mountCycling)
 \<and> phrase (advance 6000 mountCycling) = Some (js ''a chaotic whiteboard'')
 \<and> \<not> fade (advance 6499 mountCycling)
 \<and> index (advance 6499 mountCycling) = 1
 \<and> fade (advance 6500 mountCycling)
 \<and> index (advance 6500 mountCycling) = 2"
proof -
  have a: "advance 3500 mountCycling = timeline 1 500"
    using at_period [of 500 1] by simp
  have b: "advance 5999 mountCycling = timeline 1 2999"
    using at_period [of 2999 1] by simp
  have c: "advance 6000 mountCycling = timeline 2 0"
    using at_period [of 0 2] by simp
  have d: "advance 6499 mountCycling = timeline 2 499"
    using at_period [of 499 2] by simp
  have e: "advance 6500 mountCycling = timeline 2 500"
    using at_period [of 500 2] by simp
  show ?thesis
    unfolding a b c d e by (simp add: phrase_timeline words_1) (simp add: timeline_def)
qed

text \<open>
  C7, amended. From mount at \<open>t = 0\<close> (index 0, visible) the interval expires at every
  multiple of 3000 ms, counted from mount. The first phrase is visible until
  \<open>t = 3000\<close>. At each expiry \<open>fade\<close> goes false and stays false for 500 ms, the index
  unchanged; exactly 500 ms after the expiry the index advances by one modulo the
  number of phrases and \<open>fade\<close> is true again, until the next expiry: every phrase after
  the first is fully visible for 2500 ms, from \<open>3000 k + 500\<close> to \<open>3000 k + 3000\<close>. So
  "a napkin sketch" is shown visible until \<open>t = 3000\<close>, fading from 3000 to 3500, and
  "a chaotic whiteboard" is shown visible from \<open>t = 3500\<close> until \<open>t = 6000\<close>.
\<close>

theorem C7_cycle_timing:
  "(t < 3000 \<longrightarrow>
      fade (advance t mountCycling)
    \<and> phrase (advance t mountCycling) = Some (js ''a napkin sketch''))
 \<and> (3000 \<le> t \<and> t < 3500 \<longrightarrow>
      \<not> fade (advance t mountCycling)
    \<and> phrase (advance t mountCycling) = Some (js ''a napkin sketch''))
 \<and> (3500 \<le> t \<and> t < 6000 \<longrightarrow>
      fade (advance t mountCycling)
    \<and> phrase (advance t mountCycling) = Some (js ''a chaotic whiteboard''))
 \<and> (1 \<le> k \<and> r < 500 \<longrightarrow>
      \<not> fade (advance (3000 * k + r) mountCycling)
    \<and> index (advance (3000 * k + r) mountCycling) = (k - 1) mod length words)
 \<and> (1 \<le> k \<and> 500 \<le> r \<and> r < 3000 \<longrightarrow>
      fade (advance (3000 * k + r) mountCycling)
    \<and> index (advance (3000 * k + r) mountCycling) = k mod length words)
 \<and> (1 \<le> k \<longrightarrow>
      index (advance (3000 * k + 500) mountCycling) =
        (index (advance (3000 * k + 499) mountCycling) + 1) mod length words)"
proof -
  have a: "fade (advance t mountCycling)
      \<and> phrase (advance t mountCycling) = Some (js ''a napkin sketch'')" if "t < 3000"
  proof -
    from that have "fade (timeline 0 t)"
      by (simp add: timeline_def)
    moreover from that have "phrase (timeline 0 t) = Some (js ''a napkin sketch'')"
      by (simp add: phrase_timeline words_0)
    ultimately show ?thesis
      using that by (simp add: first_period)
  qed
  have b: "\<not> fade (advance t mountCycling)
      \<and> phrase (advance t mountCycling) = Some (js ''a napkin sketch'')"
    if "3000 \<le> t" and "t < 3500"
  proof -
    from that have "\<not> fade (timeline 1 (t - 3000))"
      by (simp add: timeline_def)
    moreover from that have "phrase (timeline 1 (t - 3000)) = Some (js ''a napkin sketch'')"
      by (simp add: phrase_timeline words_0)
    ultimately show ?thesis
      using that by (simp add: second_period)
  qed
  have c: "fade (advance t mountCycling)
      \<and> phrase (advance t mountCycling) = Some (js ''a chaotic whiteboard'')"
    if "3500 \<le> t" and "t < 6000"
  proof -
    from that have "fade (timeline 1 (t - 3000))"
      by (simp add: timeline_def)
    moreover from that have "\<not> t - 3000 < 500"
      by arith
    then have "phrase (timeline 1 (t - 3000)) = Some (js ''a chaotic whiteboard'')"
      by (simp add: phrase_timeline words_1)
    ultimately show ?thesis
      using that by (simp add: second_period)
  qed
  have d: "\<not> fade (advance (3000 * k + r) mountCycling)
      \<and> index (advance (3000 * k + r) mountCycling) = (k - 1) mod length words"
    if "1 \<le> k" and "r < 500"
    using that by (simp add: at_period timeline_def length_words)
  have e: "fade (advance (3000 * k + r) mountCycling)
      \<and> index (advance (3000 * k + r) mountCycling) = k mod length words"
    if "500 \<le> r" and "r < 3000"
    using that by (simp add: at_period timeline_def length_words)
  have f: "index (advance (3000 * k + 500) mountCycling) =
      (index (advance (3000 * k + 499) mountCycling) + 1) mod length words" if "1 \<le> k"
  proof -
    from that obtain j where k: "k = Suc j"
      by (cases k) auto
    have step: "Suc (j mod 6) mod 6 = Suc j mod 6"
      by (rule mod_Suc_eq)
    have hi: "advance (3000 * k + 500) mountCycling = timeline k 500"
      by (rule at_period) simp
    have lo: "advance (3000 * k + 499) mountCycling = timeline k 499"
      by (rule at_period) simp
    show ?thesis
      unfolding hi lo using step by (simp add: timeline_def length_words k)
  qed
  from a b c d e f show ?thesis
    by blast
qed

theorem C7_witness:
  "fade (advance 0 mountCycling)
 \<and> phrase (advance 0 mountCycling) = Some (js ''a napkin sketch'')
 \<and> fade (advance 2999 mountCycling)
 \<and> phrase (advance 2999 mountCycling) = Some (js ''a napkin sketch'')
 \<and> \<not> fade (advance 3000 mountCycling)
 \<and> \<not> fade (advance 3499 mountCycling)
 \<and> phrase (advance 3499 mountCycling) = Some (js ''a napkin sketch'')
 \<and> fade (advance 3500 mountCycling)
 \<and> phrase (advance 3500 mountCycling) = Some (js ''a chaotic whiteboard'')
 \<and> \<not> fade (advance 18000 mountCycling) \<and> index (advance 18000 mountCycling) = 5
 \<and> fade (advance 18500 mountCycling) \<and> index (advance 18500 mountCycling) = 0"
  using C7_cycle_timing [of 0 6 0] C7_cycle_timing [of 2999 6 500]
    C7_cycle_timing [of 3000 0 0] C7_cycle_timing [of 3499 0 0] C7_cycle_timing [of 3500 0 0]
  by (simp add: length_words)

subsection \<open>C8\<close>

text \<open>
  C8 fails on the code. The cleanup clears the interval only: unmounting 200 ms into
  the first fade-out (at \<open>t = 3200\<close>) leaves the 500 ms timeout pending, and at
  \<open>t = 3500\<close> its callback still runs, calling \<open>setIndex\<close> and \<open>setFade\<close> after unmount.
\<close>

theorem C8_timeout_survives_unmount:
  "interval (unmount (advance 3200 mountCycling)) = None
 \<and> timeouts (unmount (advance 3200 mountCycling)) = [3500]
 \<and> index (unmount (advance 3200 mountCycling)) = 0
 \<and> \<not> fade (unmount (advance 3200 mountCycling))
 \<and> index (advance 300 (unmount (advance 3200 mountCycling))) = 1
 \<and> fade (advance 300 (unmount (advance 3200 mountCycling)))
 \<and> timeouts (advance 300 (unmount (advance 3200 mountCycling))) = []"
proof -
  define c where "c = unmount (advance 3200 mountCycling)"
  have c: "c = \<lparr>index = 0, fade = False, clock = 3200, interval = None, timeouts = [3500]\<rparr>"
    by (simp add: c_def advance_mount timeline_def unmount_def)
  have "advance (3500 - clock c) c = timeoutCallback (c\<lparr>clock := 3500, timeouts := []\<rparr>)"
    by (rule advance_unmounted_fire) (simp_all add: c)
  then have "advance 300 c = timeoutCallback (c\<lparr>clock := 3500, timeouts := []\<rparr>)"
    by (simp add: c)
  then show ?thesis
    unfolding c_def [symmetric] by (simp add: c timeoutCallback_def length_words)
qed

subsection \<open>C9\<close>

text \<open>
  C9. A drop with no file list or an empty one, and a picker change with no file list
  or an empty one, make no call and show no notice; the drop still resets \<open>isDragging\<close>.
\<close>

theorem C9_no_file_is_silent:
  "handleFileChange p s None = (s, [])
 \<and> handleFileChange p s (Some []) = (s, [])
 \<and> calls (snd (handleDrop p s None)) = [] \<and> alerts (snd (handleDrop p s None)) = []
 \<and> calls (snd (handleDrop p s (Some []))) = [] \<and> alerts (snd (handleDrop p s (Some []))) = []
 \<and> isDragging (fst (handleDrop p s None)) = False
 \<and> isDragging (fst (handleDrop p s (Some []))) = False
 \<and> prompt (fst (handleDrop p s None)) = prompt s
 \<and> prompt (fst (handleDrop p s (Some []))) = prompt s"
  by (simp add: handleFileChange_def handleDrop_def firstFile_def Let_def)

theorem C9_witness:
  "handleFileChange idle typed (Some []) = (typed, [])
 \<and> snd (handleDrop idle typed (Some [])) = [PreventDefault]
 \<and> isDragging typed \<and> \<not> isDragging (fst (handleDrop idle typed (Some [])))"
  using C9_no_file_is_silent [of idle typed]
  by (simp add: handleDrop_def firstFile_def idle_def typed_def Let_def)

subsection \<open>C10\<close>

text \<open>
  C10. Trimming only gates the submission, it is never applied to the value submitted.
  When the trimmed prompt is non-empty (and the flags allow it) \<open>handleTextSubmit\<close> makes
  its call with the prompt as stored. For a file of an accepted type \<open>handleFile\<close> and
  \<open>handleFileChange\<close> make their call with the prompt as stored and that file, whatever
  the prompt is, and so does \<open>handleDrop\<close> when neither flag is set. No handler and no
  event makes a call with any other text than the stored prompt.
\<close>

theorem C10_prompt_passed_verbatim:
  "(trim (prompt s) \<noteq> [] \<and> \<not> isGenerating p \<and> \<not> disabled p \<longrightarrow>
      calls (snd (handleTextSubmit p s)) = [(prompt s, None)])
 \<and> (prefix (js ''image/'') (ftype f) \<or> ftype f = js ''application/pdf'' \<longrightarrow>
      calls (snd (handleFile p s f)) = [(prompt s, Some f)]
    \<and> calls (snd (handleFileChange p s (Some (f # rest)))) = [(prompt s, Some f)]
    \<and> (\<not> isGenerating p \<and> \<not> disabled p \<longrightarrow>
         calls (snd (handleDrop p s (Some (f # rest)))) = [(prompt s, Some f)]
       \<and> calls (snd (fire p s (FileChange (Some (f # rest))))) = [(prompt s, Some f)]))
 \<and> (\<forall>c\<in>set (calls (snd (handleTextSubmit p s))). fst c = prompt s)
 \<and> (\<forall>c\<in>set (calls (snd (handleFile p s f))). fst c = prompt s)
 \<and> (\<forall>c\<in>set (calls (snd (fire p s ev))). fst c = prompt s)"
proof -
  have text_path: "trim (prompt s) \<noteq> [] \<and> \<not> isGenerating p \<and> \<not> disabled p \<longrightarrow>
      calls (snd (handleTextSubmit p s)) = [(prompt s, None)]"
    by (simp add: handleTextSubmit_def)
  have file_path: "calls (snd (handleFile p s f)) = [(prompt s, Some f)]
      \<and> calls (snd (handleFileChange p s (Some (f # rest)))) = [(prompt s, Some f)]"
    if "prefix (js ''image/'') (ftype f) \<or> ftype f = js ''application/pdf''"
    using that by (simp add: handleFile_def handleFileChange_def firstFile_def)
  have drop_path: "calls (snd (handleDrop p s (Some (f # rest)))) = [(prompt s, Some f)]
      \<and> calls (snd (fire p s (FileChange (Some (f # rest))))) = [(prompt s, Some f)]"
    if "prefix (js ''image/'') (ftype f) \<or> ftype f = js ''application/pdf''"
      and "\<not> isGenerating p \<and> \<not> disabled p"
    using that
    by (simp add: handleDrop_def handleFile_def handleFileChange_def firstFile_def
        fileInputDisabled_def Let_def)
  have only_text: "\<forall>c\<in>set (calls (snd (handleTextSubmit p s))). fst c = prompt s"
    by (simp add: handleTextSubmit_def)
  have only_file: "\<forall>c\<in>set (calls (snd (handleFile p s f))). fst c = prompt s"
    by (simp add: handleFile_def)
  have only_event: "\<forall>c\<in>set (calls (snd (fire p s ev))). fst c = prompt s"
    using fire_passes_prompt [of _ p s ev] by blast
  from text_path file_path drop_path only_text only_file only_event show ?thesis
    by blast
qed

theorem C10_witness:
  "trim (prompt padded) = js ''hi'' \<and> prompt padded = js ''  hi  ''
 \<and> calls (snd (handleTextSubmit idle padded)) = [(js ''  hi  '', None)]
 \<and> calls (snd (handleFile idle padded pngFile)) = [(js ''  hi  '', Some pngFile)]
 \<and> calls (snd (handleFileChange idle padded (Some [pngFile]))) = [(js ''  hi  '', Some pngFile)]
 \<and> calls (snd (handleDrop idle padded (Some [pngFile]))) = [(js ''  hi  '', Some pngFile)]
 \<and> calls (snd (fire idle padded (FileChange (Some [pngFile])))) =
      [(js ''  hi  '', Some pngFile)]"
proof -
  have tr: "trim (prompt padded) = js ''hi''"
    by (simp add: padded_def js_def trim_def isWhiteSpace_def)
  have pr: "prompt padded = js ''  hi  ''"
    by (simp add: padded_def)
  have ty: "prefix (js ''image/'') (ftype pngFile)"
    by (simp add: pngFile_def js_def)
  have fl: "\<not> isGenerating idle \<and> \<not> disabled idle"
    by (simp add: idle_def)
  have ne: "trim (prompt padded) \<noteq> []"
    unfolding tr by (simp add: js_def)
  from C10_prompt_passed_verbatim [of padded idle pngFile "[]" "Drop (Some [pngFile])"]
    ne ty fl
  have "calls (snd (handleTextSubmit idle padded)) = [(prompt padded, None)]
      \<and> calls (snd (handleFile idle padded pngFile)) = [(prompt padded, Some pngFile)]
      \<and> calls (snd (handleFileChange idle padded (Some [pngFile]))) =
          [(prompt padded, Some pngFile)]
      \<and> calls (snd (handleDrop idle padded (Some [pngFile]))) = [(prompt padded, Some pngFile)]
      \<and> calls (snd (fire idle padded (FileChange (Some [pngFile])))) =
          [(prompt padded, Some pngFile)]"
    by blast
  with tr pr show ?thesis
    by simp
qed

end
